theory Spec2Isabelle
  imports
    Complex_Main
    "HOL-Library.Char_ord"
    "HOL-Library.List_Lexorder"
    "HOL-Library.Product_Lexorder"
    "HOL-Library.Sublist"
    "HOL-Library.Multiset"
    "HOL-Library.AList"
    "HOL-Library.Log_Nat"
begin

section \<open>Text\<close>

text \<open>
  The pipeline of \<^verbatim>\<open>travel_advisory/main.py\<close> works on Python \<^verbatim>\<open>str\<close> values.
  They are modelled as \<^typ>\<open>string\<close>, one \<^typ>\<open>char\<close> per code point, for the
  code points 0 to 255 (Latin-1), with the character tables of Python on that range:
  the white space of \<^verbatim>\<open>str.isspace\<close> and \<^verbatim>\<open>\s\<close> includes U+0085 and U+00A0, the
  letters U+00C0 to U+00DE (but U+00D7) are capitals of U+00E0 to U+00FE (but U+00F7), and
  the only decimal digits are \<^verbatim>\<open>0\<close> to \<^verbatim>\<open>9\<close>.  Strings compare as Python compares
  them, code point by code point (the order of \<^verbatim>\<open>List_Lexorder\<close> over
  \<^verbatim>\<open>Char_ord\<close>).
\<close>

definition ascii_uppercase :: string where
  "ascii_uppercase = ''ABCDEFGHIJKLMNOPQRSTUVWXYZ''"

definition ascii_lowercase :: string where
  "ascii_lowercase = ''abcdefghijklmnopqrstuvwxyz''"

definition latin1_uppercase :: string where
  \<comment> \<open>U+00C0 to U+00DE without the multiplication sign U+00D7\<close>
  "latin1_uppercase =
     [CHR 0xC0, CHR 0xC1, CHR 0xC2, CHR 0xC3, CHR 0xC4, CHR 0xC5, CHR 0xC6, CHR 0xC7,
      CHR 0xC8, CHR 0xC9, CHR 0xCA, CHR 0xCB, CHR 0xCC, CHR 0xCD, CHR 0xCE, CHR 0xCF,
      CHR 0xD0, CHR 0xD1, CHR 0xD2, CHR 0xD3, CHR 0xD4, CHR 0xD5, CHR 0xD6, CHR 0xD8,
      CHR 0xD9, CHR 0xDA, CHR 0xDB, CHR 0xDC, CHR 0xDD, CHR 0xDE]"

definition latin1_lowercase :: string where
  \<comment> \<open>U+00E0 to U+00FE without the division sign U+00F7\<close>
  "latin1_lowercase =
     [CHR 0xE0, CHR 0xE1, CHR 0xE2, CHR 0xE3, CHR 0xE4, CHR 0xE5, CHR 0xE6, CHR 0xE7,
      CHR 0xE8, CHR 0xE9, CHR 0xEA, CHR 0xEB, CHR 0xEC, CHR 0xED, CHR 0xEE, CHR 0xEF,
      CHR 0xF0, CHR 0xF1, CHR 0xF2, CHR 0xF3, CHR 0xF4, CHR 0xF5, CHR 0xF6, CHR 0xF8,
      CHR 0xF9, CHR 0xFA, CHR 0xFB, CHR 0xFC, CHR 0xFD, CHR 0xFE]"

definition lower_char :: "char \<Rightarrow> char" where
  "lower_char c =
     (case map_of (zip (ascii_uppercase @ latin1_uppercase) (ascii_lowercase @ latin1_lowercase)) c of
        Some d \<Rightarrow> d
      | None \<Rightarrow> c)"

definition upper_char :: "char \<Rightarrow> char" where
  "upper_char c =
     (case map_of (zip (ascii_lowercase @ latin1_lowercase) (ascii_uppercase @ latin1_uppercase)) c of
        Some d \<Rightarrow> d
      | None \<Rightarrow> c)"

definition lower :: "string \<Rightarrow> string" where
  \<comment> \<open>\<^verbatim>\<open>str.lower()\<close>\<close>
  "lower s = map lower_char s"

text \<open>
  \<^verbatim>\<open>str.upper()\<close> leaves the range at three letters: the sharp s U+00DF becomes
  \<^verbatim>\<open>SS\<close>, the micro sign U+00B5 becomes U+039C and U+00FF becomes U+0178.  Its result
  is therefore a list of code points.
\<close>

definition code_points :: "string \<Rightarrow> nat list" where
  "code_points s = map of_char s"

definition upper_points :: "char \<Rightarrow> nat list" where
  "upper_points c =
     (if c = CHR 0xDF then [0x53, 0x53]
      else if c = CHR 0xB5 then [0x39C]
      else if c = CHR 0xFF then [0x178]
      else [of_char (upper_char c)])"

definition upper :: "string \<Rightarrow> nat list" where
  \<comment> \<open>\<^verbatim>\<open>str.upper()\<close>\<close>
  "upper s = concat (map upper_points s)"

definition isspace :: "char \<Rightarrow> bool" where
  \<comment> \<open>\<^verbatim>\<open>str.isspace()\<close> and the class \<^verbatim>\<open>\s\<close>: TAB, LF, VT, FF, CR, FS, GS, RS, US, SPACE,
      NEL (U+0085), NBSP (U+00A0)\<close>
  "isspace c =
     (c \<in> set [CHR 0x09, CHR 0x0A, CHR 0x0B, CHR 0x0C, CHR 0x0D,
                CHR 0x1C, CHR 0x1D, CHR 0x1E, CHR 0x1F, CHR 0x20, CHR 0x85, CHR 0xA0])"

definition isdigit :: "char \<Rightarrow> bool" where
  \<comment> \<open>the class \<^verbatim>\<open>\d\<close>\<close>
  "isdigit c = (c \<in> set ''0123456789'')"

definition digit_value :: "char \<Rightarrow> int" where
  \<comment> \<open>the value of a decimal digit\<close>
  "digit_value c = int (length (takeWhile (\<lambda>d. d \<noteq> c) ''0123456789''))"

definition int_of_str :: "string \<Rightarrow> int" where
  \<comment> \<open>\<^verbatim>\<open>int(s)\<close> of a string of decimal digits\<close>
  "int_of_str s = foldl (\<lambda>n c. 10 * n + digit_value c) 0 s"

definition strip :: "string \<Rightarrow> string" where
  \<comment> \<open>\<^verbatim>\<open>str.strip()\<close>\<close>
  "strip s = rev (dropWhile isspace (rev (dropWhile isspace s)))"

definition contains :: "string \<Rightarrow> string \<Rightarrow> bool" where
  \<comment> \<open>\<^verbatim>\<open>sub in s\<close>\<close>
  "contains sub s = sublist sub s"

section \<open>Regular expressions\<close>

text \<open>
  The patterns of the source use character classes, literals, sequence, alternation,
  greedy and lazy repetition of a single character class, and groups.  A pattern is a
  value of \<^verbatim>\<open>rx\<close>; \<^verbatim>\<open>run\<close> lists the ways it matches at the start of a text,
  in the order in which the backtracking matcher of \<^verbatim>\<open>re\<close> tries them, so the
  match \<^verbatim>\<open>re\<close> reports is the first of the list.  A state is the groups
  captured so far and the text that is left.
\<close>

datatype rx =
    Sym "char \<Rightarrow> bool"
  | Eps
  | Cat rx rx
  | Alt rx rx
  | Many "char \<Rightarrow> bool"
  | Few "char \<Rightarrow> bool"
  | Grp nat rx

type_synonym groups = "(nat \<times> string) list"
type_synonym mstate = "groups \<times> string"

fun many :: "(char \<Rightarrow> bool) \<Rightarrow> groups \<Rightarrow> string \<Rightarrow> mstate list" where
  \<comment> \<open>greedy \<^verbatim>\<open>[..]*\<close>: the longest run first\<close>
  "many P g [] = [(g, [])]"
| "many P g (c # cs) = (if P c then many P g cs @ [(g, c # cs)] else [(g, c # cs)])"

fun few :: "(char \<Rightarrow> bool) \<Rightarrow> groups \<Rightarrow> string \<Rightarrow> mstate list" where
  \<comment> \<open>lazy \<^verbatim>\<open>[..]*?\<close>: the shortest run first\<close>
  "few P g [] = [(g, [])]"
| "few P g (c # cs) = (g, c # cs) # (if P c then few P g cs else [])"

fun run :: "rx \<Rightarrow> mstate \<Rightarrow> mstate list" where
  "run (Sym P) (g, s) = (case s of [] \<Rightarrow> [] | c # cs \<Rightarrow> if P c then [(g, cs)] else [])"
| "run Eps st = [st]"
| "run (Cat a b) st = concat (map (run b) (run a st))"
| "run (Alt a b) st = run a st @ run b st"
| "run (Many P) (g, s) = many P g s"
| "run (Few P) (g, s) = few P g s"
| "run (Grp i r) (g, s) =
     map (\<lambda>(g', s'). ((i, take (length s - length s') s) # g', s')) (run r (g, s))"

definition group :: "groups \<Rightarrow> nat \<Rightarrow> string" where
  \<comment> \<open>\<^verbatim>\<open>match.group(i)\<close>, for a group that took part in the match\<close>
  "group g i = (case map_of g i of Some t \<Rightarrow> t | None \<Rightarrow> [])"

definition re_match :: "rx \<Rightarrow> string \<Rightarrow> mstate option" where
  \<comment> \<open>\<^verbatim>\<open>re.match\<close>: the first way to match at the start, with the text after the match\<close>
  "re_match r s = (case run r ([], s) of [] \<Rightarrow> None | m # _ \<Rightarrow> Some m)"

text \<open>
  \<^verbatim>\<open>re.sub\<close> and \<^verbatim>\<open>re.finditer\<close> scan the text from left to right: where the
  pattern matches, the match is replaced (or reported) and the scan goes on behind it;
  where it does not, the scan moves one character on.  No pattern of the source matches
  the empty text, so a match always moves the scan forward.
\<close>

function re_sub :: "rx \<Rightarrow> string \<Rightarrow> string \<Rightarrow> string" where
  "re_sub r repl [] = []"
| "re_sub r repl (c # cs) =
     (case run r ([], c # cs) of
        [] \<Rightarrow> c # re_sub r repl cs
      | (g, rest) # _ \<Rightarrow>
          if length rest \<le> length cs then repl @ re_sub r repl rest
          else c # re_sub r repl cs)"
  by pat_completeness auto
termination
  by (relation "measure (\<lambda>(r, repl, s). length s)") auto

function finditer :: "rx \<Rightarrow> string \<Rightarrow> groups list" where
  "finditer r [] = []"
| "finditer r (c # cs) =
     (case run r ([], c # cs) of
        [] \<Rightarrow> finditer r cs
      | (g, rest) # _ \<Rightarrow>
          if length rest \<le> length cs then g # finditer r rest
          else finditer r cs)"
  by pat_completeness auto
termination
  by (relation "measure (\<lambda>(r, s). length s)") auto

definition re_sub_bol :: "rx \<Rightarrow> string \<Rightarrow> string \<Rightarrow> string" where
  \<comment> \<open>\<^verbatim>\<open>re.sub\<close> of a pattern that starts with \<^verbatim>\<open>^\<close>: it matches at offset 0 only\<close>
  "re_sub_bol r repl s = (case run r ([], s) of [] \<Rightarrow> s | (g, rest) # _ \<Rightarrow> repl @ rest)"

text \<open>Building blocks of the patterns.\<close>

definition chr :: "char \<Rightarrow> rx" where
  "chr c = Sym (\<lambda>x. x = c)"

definition chr_ci :: "char \<Rightarrow> rx" where
  \<comment> \<open>a literal under \<^verbatim>\<open>re.IGNORECASE\<close>\<close>
  "chr_ci c = Sym (\<lambda>x. lower_char x = lower_char c)"

definition cats :: "rx list \<Rightarrow> rx" where
  "cats rs = foldr Cat rs Eps"

definition lit :: "string \<Rightarrow> rx" where
  "lit s = cats (map chr s)"

definition lit_ci :: "string \<Rightarrow> rx" where
  "lit_ci s = cats (map chr_ci s)"

definition plus_greedy :: "(char \<Rightarrow> bool) \<Rightarrow> rx" where
  \<comment> \<open>greedy \<^verbatim>\<open>[..]+\<close>\<close>
  "plus_greedy P = Cat (Sym P) (Many P)"

definition plus_lazy :: "(char \<Rightarrow> bool) \<Rightarrow> rx" where
  \<comment> \<open>lazy \<^verbatim>\<open>[..]+?\<close>\<close>
  "plus_lazy P = Cat (Sym P) (Few P)"

definition opt :: "rx \<Rightarrow> rx" where
  \<comment> \<open>greedy \<^verbatim>\<open>r?\<close>\<close>
  "opt r = Alt r Eps"

definition dot :: "char \<Rightarrow> bool" where
  \<comment> \<open>\<^verbatim>\<open>.\<close> without \<^verbatim>\<open>re.DOTALL\<close>: any character but the line feed\<close>
  "dot c = (c \<noteq> CHR 0x0A)"

section \<open>Title parser\<close>

definition title_rx :: rx where
  \<comment> \<open>\<^verbatim>\<open>^(.+?)\s*-\s*Level\s*(\d)\<close> with \<^verbatim>\<open>re.IGNORECASE\<close>\<close>
  "title_rx =
     cats [Grp 1 (plus_lazy dot), Many isspace, chr CHR ''-'', Many isspace,
           lit_ci ''Level'', Many isspace, Grp 2 (Sym isdigit)]"

text \<open>
  The level token in the words of the pattern: optional white space, a hyphen, optional
  white space, the word \<^verbatim>\<open>Level\<close> in any case, optional white space, one decimal digit.
  \<^verbatim>\<open>level_token t\<close> is the digit and the text behind it when \<open>t\<close> starts with the token.
\<close>

definition level_token :: "string \<Rightarrow> (char \<times> string) option" where
  "level_token t =
     (case dropWhile isspace t of
        [] \<Rightarrow> None
      | c # t2 \<Rightarrow>
          if c \<noteq> CHR ''-'' then None
          else let t3 = dropWhile isspace t2
               in if lower (take 5 t3) \<noteq> ''level'' then None
                  else (case dropWhile isspace (drop 5 t3) of
                          [] \<Rightarrow> None
                        | d # rest \<Rightarrow> if isdigit d then Some (d, rest) else None))"

definition parse_level_from_title :: "string \<Rightarrow> string \<times> int" where
  "parse_level_from_title title =
     (case re_match title_rx title of
        Some (g, _) \<Rightarrow> (strip (group g 1), int_of_str (group g 2))
      | None \<Rightarrow> (title, 0))"

section \<open>Data model\<close>

text \<open>
  A \<^verbatim>\<open>datetime\<close> is naive (the wall-clock reading, in microseconds) or aware (the
  wall-clock reading and its offset from UTC).  The code compares timestamps and formats
  them; comparing a naive with an aware one raises \<^verbatim>\<open>TypeError\<close>.
\<close>

datatype datetime = Naive int | Aware int int

datatype error = TypeError | OverflowError | AttributeError | IndexError | KeyError

fun dt_gt :: "datetime \<Rightarrow> datetime \<Rightarrow> error + bool" where
  \<comment> \<open>\<^verbatim>\<open>a > b\<close> on \<^verbatim>\<open>datetime\<close>\<close>
  "dt_gt (Naive a) (Naive b) = Inr (a > b)"
| "dt_gt (Aware a oa) (Aware b ob) = Inr (a - oa > b - ob)"
| "dt_gt (Naive a) (Aware b ob) = Inl TypeError"
| "dt_gt (Aware a oa) (Naive b) = Inl TypeError"



record regional_warning =
  region_name :: string
  level :: int
  reasons :: string

text \<open>
  The dataclass \<^verbatim>\<open>TravelAdvisory\<close> declares \<^verbatim>\<open>country_code\<close> and \<^verbatim>\<open>link\<close> as
  \<^verbatim>\<open>str\<close>.  Python does not enforce the declaration, and \<^verbatim>\<open>parse_advisory\<close> stores
  there what the record of the feed holds.  The record takes the types of the two fields
  as parameters: \<open>advisory\<close> is the dataclass as declared, on which the deduplicator,
  the classifier and the verification engine work; the result of the parser has JSON
  values in the two fields.
\<close>

record ('code, 'link) travel_advisory =
  country_name :: string
  country_code :: 'code
  overall_level :: int
  summary :: string
  last_updated :: datetime
  link :: 'link
  regional_warnings :: "regional_warning list"

type_synonym advisory = "(string, string) travel_advisory"

definition has_regional_elevation :: "advisory \<Rightarrow> bool" where
  "has_regional_elevation a =
     list_ex (\<lambda>w. level w > overall_level a) (regional_warnings a)"

definition max_regional_level :: "advisory \<Rightarrow> int" where
  "max_regional_level a =
     (case map level (regional_warnings a) of
        [] \<Rightarrow> overall_level a
      | l # ls \<Rightarrow> fold max ls l)"

text \<open>An advisory with no summary and no link, for the examples.\<close>

definition example_advisory :: "string \<Rightarrow> string \<Rightarrow> int \<Rightarrow> datetime \<Rightarrow> regional_warning list \<Rightarrow> advisory" where
  "example_advisory name code lvl updated warnings =
     \<lparr>country_name = name, country_code = code, overall_level = lvl, summary = [],
      last_updated = updated, link = [], regional_warnings = warnings\<rparr>"

section \<open>Prohibited countries\<close>

definition PROHIBITED_COUNTRY_NAMES :: "string list" where
  "PROHIBITED_COUNTRY_NAMES =
     [''china'', ''hong kong'', ''macau'', ''macao'',
      ''cuba'',
      ''iran'',
      ''north korea'', ''korea, north'', ''democratic people's republic of korea'',
      ''russia'', ''russian federation'',
      ''venezuela'']"

definition is_prohibited_country :: "string \<Rightarrow> bool" where
  "is_prohibited_country name =
     (let name_lower = strip (lower name) in
      if name_lower \<in> set PROHIBITED_COUNTRY_NAMES then True
      else list_ex (\<lambda>prohibited. contains prohibited name_lower) PROHIBITED_COUNTRY_NAMES)"

section \<open>Risk classifier\<close>

fun classify :: "advisory list \<Rightarrow> advisory list \<times> advisory list
    \<Rightarrow> advisory list \<times> advisory list" where
  \<comment> \<open>the loop of \<^verbatim>\<open>filter_high_risk\<close> over the two lists it appends to\<close>
  "classify [] (prohibited, high_risk) = (prohibited, high_risk)"
| "classify (advisory # rest) (prohibited, high_risk) =
     (if is_prohibited_country (country_name advisory)
      then classify rest (prohibited @ [advisory], high_risk)
      else if overall_level advisory \<ge> 3
      then classify rest (prohibited, high_risk @ [advisory])
      else if has_regional_elevation advisory \<and> max_regional_level advisory \<ge> 3
      then classify rest (prohibited, high_risk @ [advisory])
      else classify rest (prohibited, high_risk))"

definition high_risk_key :: "advisory \<Rightarrow> int \<times> int \<times> string" where
  "high_risk_key a = (- overall_level a, - max_regional_level a, country_name a)"

definition filter_high_risk ::
    "advisory list \<Rightarrow> advisory list \<times> advisory list" where
  \<comment> \<open>\<^verbatim>\<open>list.sort\<close> is stable, as \<^const>\<open>sort_key\<close> is\<close>
  "filter_high_risk advisories =
     (case classify advisories ([], []) of
        (prohibited, high_risk) \<Rightarrow>
          (sort_key country_name prohibited, sort_key high_risk_key high_risk))"

section \<open>Library functions\<close>

text \<open>
  Four functions of the Python library are parameters of the model: the decoding of
  character references by \<^verbatim>\<open>html.unescape\<close> (which returns a text without
  \<^verbatim>\<open>&\<close> as it is), \<^verbatim>\<open>datetime.fromisoformat\<close> (\<^const>\<open>None\<close> where it raises
  \<^verbatim>\<open>ValueError\<close>), \<^verbatim>\<open>datetime.isoformat\<close> and the SHA-256 digest.
\<close>

record stdlib =
  charrefs :: "string \<Rightarrow> string"
  fromisoformat :: "string \<Rightarrow> datetime option"
  isoformat :: "datetime \<Rightarrow> string"
  sha256_hexdigest :: "string \<Rightarrow> string"

definition html_unescape :: "stdlib \<Rightarrow> string \<Rightarrow> string" where
  "html_unescape L s = (if CHR ''&'' \<notin> set s then s else charrefs L s)"

definition replace :: "char \<Rightarrow> string \<Rightarrow> string \<Rightarrow> string" where
  \<comment> \<open>\<^verbatim>\<open>str.replace\<close> of a one-character text\<close>
  "replace old new s = concat (map (\<lambda>c. if c = old then new else [c]) s)"

text \<open>
  A stand-in for the library in the examples: no character reference is decoded, a
  non-empty text parses to a naive timestamp.
\<close>

definition example_lib :: stdlib where
  "example_lib =
     \<lparr>charrefs = (\<lambda>s. s), fromisoformat = (\<lambda>s. if s = [] then None else Some (Naive (int (length s)))),
      isoformat = (\<lambda>t. []), sha256_hexdigest = (\<lambda>s. s)\<rparr>"

section \<open>Text normalizer\<close>

definition not_gt :: "char \<Rightarrow> bool" where
  \<comment> \<open>\<^verbatim>\<open>[^>]\<close>\<close>
  "not_gt c = (c \<noteq> CHR ''>'')"

definition br_rx :: rx where
  \<comment> \<open>\<^verbatim>\<open><br\s*/?>\<close> with \<^verbatim>\<open>re.IGNORECASE\<close>\<close>
  "br_rx = cats [lit_ci ''<br'', Many isspace, opt (chr CHR ''/''), chr CHR ''>'']"

definition p_open_rx :: rx where
  \<comment> \<open>\<^verbatim>\<open><p[^>]*>\<close> with \<^verbatim>\<open>re.IGNORECASE\<close>\<close>
  "p_open_rx = cats [lit_ci ''<p'', Many not_gt, chr CHR ''>'']"

definition p_close_rx :: rx where
  \<comment> \<open>\<^verbatim>\<open></p>\<close> with \<^verbatim>\<open>re.IGNORECASE\<close>\<close>
  "p_close_rx = lit_ci ''</p>''"

definition li_rx :: rx where
  \<comment> \<open>\<^verbatim>\<open><li[^>]*>\<close> with \<^verbatim>\<open>re.IGNORECASE\<close>\<close>
  "li_rx = cats [lit_ci ''<li'', Many not_gt, chr CHR ''>'']"

definition tag_rx :: rx where
  \<comment> \<open>\<^verbatim>\<open><[^>]+>\<close>\<close>
  "tag_rx = cats [chr CHR ''<'', plus_greedy not_gt, chr CHR ''>'']"

definition newlines_rx :: rx where
  \<comment> \<open>\<^verbatim>\<open>\n{3,}\<close>\<close>
  "newlines_rx = cats [chr CHR 0x0A, chr CHR 0x0A, chr CHR 0x0A, Many (\<lambda>c. c = CHR 0x0A)]"

definition spaces_rx :: rx where
  \<comment> \<open>\<^verbatim>\<open> +\<close>\<close>
  "spaces_rx = plus_greedy (\<lambda>c. c = CHR '' '')"

definition clean_html :: "stdlib \<Rightarrow> string \<Rightarrow> string" where
  "clean_html L text0 =
     (let text1 = html_unescape L text0;
          text2 = re_sub br_rx [CHR 0x0A] text1;
          text3 = re_sub p_open_rx [CHR 0x0A] text2;
          text4 = re_sub p_close_rx [CHR 0x0A] text3;
          text5 = re_sub li_rx (CHR 0x0A # ''- '') text4;
          text6 = re_sub tag_rx [] text5;
          text7 = re_sub newlines_rx [CHR 0x0A, CHR 0x0A] text6;
          text8 = re_sub spaces_rx '' '' text7
      in strip text8)"

section \<open>Regional warning extractor\<close>

definition colon_or_space :: "char \<Rightarrow> bool" where
  \<comment> \<open>\<^verbatim>\<open>[:\s]\<close>\<close>
  "colon_or_space c = (c = CHR '':'' \<or> isspace c)"

definition not_period :: "char \<Rightarrow> bool" where
  \<comment> \<open>\<^verbatim>\<open>[^.]\<close>\<close>
  "not_period c = (c \<noteq> CHR ''.'')"

definition due_to_rx :: "rx list" where
  \<comment> \<open>\<^verbatim>\<open>[:\s]+(.+?)\s+due\s+to\s+([^.]+)\<close>, the tail of both patterns\<close>
  "due_to_rx =
     [plus_greedy colon_or_space, Grp 1 (plus_lazy dot), plus_greedy isspace, lit ''due'',
      plus_greedy isspace, lit ''to'', plus_greedy isspace, Grp 2 (plus_greedy not_period)]"

definition do_not_travel_rx :: rx where
  \<comment> \<open>\<^verbatim>\<open>[Dd]o\s+not\s+travel\s+to[:\s]+(.+?)\s+due\s+to\s+([^.]+)\<close>\<close>
  "do_not_travel_rx =
     cats ([Sym (\<lambda>c. c \<in> set ''Dd''), chr CHR ''o'', plus_greedy isspace, lit ''not'',
            plus_greedy isspace, lit ''travel'', plus_greedy isspace, lit ''to''] @ due_to_rx)"

definition reconsider_rx :: rx where
  \<comment> \<open>\<^verbatim>\<open>[Rr]econsider\s+travel\s+to[:\s]+(.+?)\s+due\s+to\s+([^.]+)\<close>\<close>
  "reconsider_rx =
     cats ([Sym (\<lambda>c. c \<in> set ''Rr''), lit ''econsider'', plus_greedy isspace, lit ''travel'',
            plus_greedy isspace, lit ''to''] @ due_to_rx)"

definition article_rx :: rx where
  \<comment> \<open>\<^verbatim>\<open>^(the|a|an)\s+\<close> with \<^verbatim>\<open>re.IGNORECASE\<close>\<close>
  "article_rx =
     cats [Grp 1 (Alt (lit_ci ''the'') (Alt (lit_ci ''a'') (lit_ci ''an''))), plus_greedy isspace]"

definition punct_rx :: rx where
  \<comment> \<open>\<^verbatim>\<open>^[-:*]\s*\<close>\<close>
  "punct_rx = cats [Sym (\<lambda>c. c \<in> set ''-:*''), Many isspace]"

definition skip_phrases :: "string list" where
  "skip_phrases = [''country'', ''nation'', ''all of'', ''anywhere'', ''entire'']"

definition vague_terms :: "string list" where
  "vague_terms = [''these areas'', ''this area'', ''the area'', ''certain areas'']"

fun add_warnings :: "int \<Rightarrow> groups list \<Rightarrow> regional_warning list \<Rightarrow> regional_warning list" where
  \<comment> \<open>the body of the two \<^verbatim>\<open>for match in ...\<close> loops, which differ in the level only\<close>
  "add_warnings lvl [] warnings = warnings"
| "add_warnings lvl (m # ms) warnings =
     (let region = strip (group m 1);
          reasons' = strip (group m 2)
      in if list_ex (\<lambda>skip. contains skip (lower region)) skip_phrases
         then add_warnings lvl ms warnings
         else
           let region = re_sub_bol article_rx [] region;
               region = re_sub_bol punct_rx [] region;
               region = strip region
           in if list_ex (\<lambda>vague. contains vague (lower region)) vague_terms
              then add_warnings lvl ms warnings
              else if length region < 3 \<or> length region > 200
              then add_warnings lvl ms warnings
              else if \<not> list_ex (\<lambda>w. contains (lower region) (lower (region_name w))) warnings
              then add_warnings lvl ms
                     (warnings @ [\<lparr>region_name = region, level = lvl, reasons = reasons'\<rparr>])
              else add_warnings lvl ms warnings)"

definition extract_regional_warnings :: "stdlib \<Rightarrow> string \<Rightarrow> int \<Rightarrow> regional_warning list" where
  "extract_regional_warnings L summary' overall =
     (let warnings = [];
          clean_text = clean_html L summary';
          warnings =
            (if overall < 4 then add_warnings 4 (finditer do_not_travel_rx clean_text) warnings
             else warnings);
          warnings =
            (if overall < 3 then add_warnings 3 (finditer reconsider_rx clean_text) warnings
             else warnings)
      in warnings)"

section \<open>Record parser\<close>

text \<open>
  The feed is decoded by \<^verbatim>\<open>json.loads\<close>, so the values of a raw record are JSON
  values: \<^verbatim>\<open>None\<close>, a truth value, an integer, a float, a text, a list or a
  dictionary with texts as keys.  A float is a number, the negative zero, an infinity or
  not a number.
\<close>

datatype pyfloat = Finite rat | Minus_Zero | Plus_Infinity | Minus_Infinity | Not_A_Number

datatype json =
    JNull
  | JBool bool
  | JInt int
  | JFloat pyfloat
  | JStr string
  | JArr "json list"
  | JObj "(string \<times> json) list"

fun truthy :: "json \<Rightarrow> bool" where
  \<comment> \<open>\<^verbatim>\<open>bool(x)\<close>, the test of \<^verbatim>\<open>if x\<close>\<close>
  "truthy JNull = False"
| "truthy (JBool b) = b"
| "truthy (JInt n) = (n \<noteq> 0)"
| "truthy (JFloat x) = (x \<noteq> Finite 0 \<and> x \<noteq> Minus_Zero)"
| "truthy (JStr s) = (s \<noteq> [])"
| "truthy (JArr xs) = (xs \<noteq> [])"
| "truthy (JObj kvs) = (kvs \<noteq> [])"

fun getitem0 :: "json \<Rightarrow> error + json" where
  \<comment> \<open>\<^verbatim>\<open>x[0]\<close>; no key of a JSON dictionary is the integer 0\<close>
  "getitem0 (JStr s) = (case s of [] \<Rightarrow> Inl IndexError | c # _ \<Rightarrow> Inr (JStr [c]))"
| "getitem0 (JArr xs) = (case xs of [] \<Rightarrow> Inl IndexError | x # _ \<Rightarrow> Inr x)"
| "getitem0 (JObj kvs) = Inl KeyError"
| "getitem0 JNull = Inl TypeError"
| "getitem0 (JBool b) = Inl TypeError"
| "getitem0 (JInt n) = Inl TypeError"
| "getitem0 (JFloat x) = Inl TypeError"

text \<open>
  A raw record is the dictionary of one advisory of the feed, at the seven keys that
  \<^verbatim>\<open>parse_advisory\<close> reads (\<open>Id\<close> stands for the key \<^verbatim>\<open>id\<close>); a key that is absent
  is \<^const>\<open>None\<close>.
\<close>

record raw_record =
  Title :: "json option"
  Category :: "json option"
  Summary :: "json option"
  Link :: "json option"
  Id :: "json option"
  Updated :: "json option"
  Published :: "json option"

text \<open>A raw record with a title, a category, a summary and a timestamp, for the examples.\<close>

definition example_raw :: "string \<Rightarrow> string list \<Rightarrow> string \<Rightarrow> string \<Rightarrow> raw_record" where
  "example_raw title category summary' updated =
     \<lparr>Title = Some (JStr title), Category = Some (JArr (map JStr category)),
      Summary = Some (JStr summary'), Link = None, Id = None, Updated = Some (JStr updated),
      Published = None\<rparr>"

definition get :: "'a option \<Rightarrow> 'a \<Rightarrow> 'a" where
  \<comment> \<open>\<^verbatim>\<open>dict.get(key, default)\<close>\<close>
  "get v d = (case v of Some x \<Rightarrow> x | None \<Rightarrow> d)"

text \<open>
  \<^verbatim>\<open>parse_advisory_try\<close> is the body of the \<^verbatim>\<open>try\<close> statement of
  \<^verbatim>\<open>parse_advisory\<close>, with the exception it raises as a value.  \<^verbatim>\<open>re.match\<close>
  raises \<^verbatim>\<open>TypeError\<close> on a title that is not a text, and so do \<^verbatim>\<open>html.unescape\<close>
  and \<^verbatim>\<open>re.sub\<close> on such a summary, in the first call of \<^verbatim>\<open>clean_html\<close>.  A
  timestamp that is not a text has no method \<^verbatim>\<open>replace\<close>: the inner handler catches
  that \<^verbatim>\<open>AttributeError\<close> as it catches the \<^verbatim>\<open>ValueError\<close> of
  \<^verbatim>\<open>datetime.fromisoformat\<close>, and reads the clock, whose reading is \<open>now\<close>.
\<close>

definition parse_advisory_try ::
    "stdlib \<Rightarrow> datetime \<Rightarrow> raw_record \<Rightarrow> error + (json, json) travel_advisory option" where
  "parse_advisory_try L now raw =
     (case get (Title raw) (JStr []) of
        JStr title \<Rightarrow>
          (case parse_level_from_title title of
             (name, overall) \<Rightarrow>
               if overall = 0 \<and> \<not> is_prohibited_country name then Inr None
               else
                 let category = get (Category raw) (JArr [])
                 in case (if truthy category then getitem0 category else Inr (JStr [])) of
                      Inl e \<Rightarrow> Inl e
                    | Inr code \<Rightarrow>
                        let summary' = get (Summary raw) (JStr []);
                            link' = get (Link raw) (get (Id raw) (JStr []));
                            updated_str = get (Updated raw) (get (Published raw) (JStr []));
                            updated =
                              (case updated_str of
                                 JStr u \<Rightarrow>
                                   (case fromisoformat L (replace CHR ''Z'' ''+00:00'' u) of
                                      Some t \<Rightarrow> t
                                    | None \<Rightarrow> now)
                               | _ \<Rightarrow> now)
                        in case summary' of
                             JStr text0 \<Rightarrow>
                               let warnings = extract_regional_warnings L text0 overall
                               in Inr (Some \<lparr>country_name = name, country_code = code,
                                             overall_level = overall, summary = clean_html L text0,
                                             last_updated = updated, link = link',
                                             regional_warnings = warnings\<rparr>)
                           | _ \<Rightarrow> Inl TypeError)
      | _ \<Rightarrow> Inl TypeError)"

definition parse_advisory ::
    "stdlib \<Rightarrow> datetime \<Rightarrow> raw_record \<Rightarrow> (json, json) travel_advisory option" where
  \<comment> \<open>\<^verbatim>\<open>except Exception\<close>: whatever the body raises, the result is \<^verbatim>\<open>None\<close>\<close>
  "parse_advisory L now raw =
     (case parse_advisory_try L now raw of Inl e \<Rightarrow> None | Inr result \<Rightarrow> result)"

text \<open>
  The two ways in which the assembly of an advisory raises, in words: the category is
  true in a test and has no element 0 (it is \<^verbatim>\<open>True\<close>, a number other than zero or a
  dictionary that is not empty), or the summary is not a text.
\<close>

fun no_element_0 :: "json \<Rightarrow> bool" where
  "no_element_0 (JBool b) = b"
| "no_element_0 (JInt n) = (n \<noteq> 0)"
| "no_element_0 (JFloat x) = (x \<noteq> Finite 0 \<and> x \<noteq> Minus_Zero)"
| "no_element_0 (JObj kvs) = (kvs \<noteq> [])"
| "no_element_0 JNull = False"
| "no_element_0 (JStr s) = False"
| "no_element_0 (JArr xs) = False"

definition is_text :: "json \<Rightarrow> bool" where
  "is_text j = (case j of JStr s \<Rightarrow> True | _ \<Rightarrow> False)"

section \<open>Deduplicator\<close>

datatype dup_description = Dropped advisory advisory
  \<comment> \<open>the message \<^verbatim>\<open>Dropped ... in favor of ...\<close>: the advisory dropped, the one kept\<close>

definition identity_key :: "advisory \<Rightarrow> nat list" where
  \<comment> \<open>the key is a text, given by its code points\<close>
  "identity_key adv =
     (if country_code adv \<noteq> [] then upper (country_code adv)
      else code_points (strip (lower (country_name adv))))"

text \<open>
  The dictionary \<^verbatim>\<open>seen\<close> keeps its keys in the order of their first insertion, and
  an assignment to a key that is present replaces the value where it stands: an
  association list under \<^const>\<open>AList.update\<close>.
\<close>

fun dedup :: "advisory list \<Rightarrow> (nat list \<times> advisory) list \<times> dup_description list
    \<Rightarrow> error + (nat list \<times> advisory) list \<times> dup_description list" where
  "dedup [] (seen, duplicates) = Inr (seen, duplicates)"
| "dedup (adv # rest) (seen, duplicates) =
     (let key = identity_key adv in
      case map_of seen key of
        Some existing \<Rightarrow>
          (case dt_gt (last_updated adv) (last_updated existing) of
             Inl e \<Rightarrow> Inl e
           | Inr True \<Rightarrow>
               dedup rest (AList.update key adv seen, duplicates @ [Dropped existing adv])
           | Inr False \<Rightarrow> dedup rest (seen, duplicates @ [Dropped adv existing]))
      | None \<Rightarrow> dedup rest (AList.update key adv seen, duplicates))"

definition deduplicate_advisories ::
    "advisory list \<Rightarrow> error + advisory list \<times> dup_description list" where
  "deduplicate_advisories advisories =
     (case dedup advisories ([], []) of
        Inl e \<Rightarrow> Inl e
      | Inr (seen, duplicates) \<Rightarrow> Inr (map snd seen, duplicates))"

section \<open>Verification engine\<close>

function str_of_nat :: "nat \<Rightarrow> string" where
  "str_of_nat n =
     (if n < 10 then [''0123456789'' ! n]
      else str_of_nat (n div 10) @ [''0123456789'' ! (n mod 10)])"
  by pat_completeness auto
termination
  by (relation "measure (\<lambda>n. n)") auto

definition str_of_int :: "int \<Rightarrow> string" where
  \<comment> \<open>\<^verbatim>\<open>str(i)\<close>\<close>
  "str_of_int i = (if i < 0 then CHR ''-'' # str_of_nat (nat (- i)) else str_of_nat (nat i))"

definition hash_key :: "advisory \<Rightarrow> string" where
  \<comment> \<open>\<^verbatim>\<open>a.country_code or a.country_name\<close>\<close>
  "hash_key a = (if country_code a \<noteq> [] then country_code a else country_name a)"

definition hash_record :: "stdlib \<Rightarrow> advisory \<Rightarrow> string" where
  "hash_record L adv =
     country_code adv @ ''|'' @ country_name adv @ ''|'' @ str_of_int (overall_level adv)
       @ ''|'' @ isoformat L (last_updated adv)"

definition hashed_text :: "stdlib \<Rightarrow> advisory list \<Rightarrow> string" where
  \<comment> \<open>what the calls of \<^verbatim>\<open>hasher.update\<close> feed to the hash, one after the other\<close>
  "hashed_text L advisories = concat (map (hash_record L) (sort_key hash_key advisories))"

definition compute_data_hash :: "stdlib \<Rightarrow> advisory list \<Rightarrow> string" where
  "compute_data_hash L advisories = sha256_hexdigest L (hashed_text L advisories)"

text \<open>
  The quotient \<^verbatim>\<open>parse_failures / raw_count\<close> is a \<^verbatim>\<open>float\<close>: the binary64 number
  nearest to the quotient of the two integers, ties to the even significand, and
  \<^verbatim>\<open>OverflowError\<close> where that is beyond the range.  The literal \<^verbatim>\<open>0.05\<close> is the
  binary64 number nearest to \<open>1/20\<close>.
\<close>

definition round_half_even :: "rat \<Rightarrow> int" where
  "round_half_even x =
     (let f = \<lfloor>x\<rfloor>; d = x - of_int f
      in if d < 1 / 2 then f else if d > 1 / 2 then f + 1 else if even f then f else f + 1)"

definition exponent :: "rat \<Rightarrow> int" where
  \<comment> \<open>of a positive number: the \<open>e\<close> with \<open>2 ^ e \<le> x < 2 ^ (e + 1)\<close>\<close>
  "exponent x =
     (case quotient_of x of
        (n, d) \<Rightarrow> let k = bitlen n - bitlen d in if 2 powi k \<le> x then k else k - 1)"

definition binary64 :: "rat \<Rightarrow> rat" where
  \<comment> \<open>53 significant bits; below \<open>2 ^ - 1022\<close> the subnormal spacing \<open>2 ^ - 1074\<close>\<close>
  "binary64 x =
     (if x = 0 then 0
      else let e = max (exponent \<bar>x\<bar>) (- 1022); ulp = 2 powi (e - 52)
           in of_int (round_half_even (x / ulp)) * ulp)"

definition true_div :: "nat \<Rightarrow> nat \<Rightarrow> error + rat" where
  \<comment> \<open>\<^verbatim>\<open>p / r\<close> of two integers, \<open>r\<close> not zero\<close>
  "true_div p r =
     (let y = binary64 (of_nat p / of_nat r)
      in if y \<ge> 2 powi 1024 then Inl OverflowError else Inr y)"

datatype assertion_error =
    LEAK string
  | PARSE_FAILURES nat nat
  | SANITY
  | DUPLICATE string

fun leak_errors :: "advisory list \<Rightarrow> assertion_error list" where
  "leak_errors [] = []"
| "leak_errors (adv # rest) =
     (if is_prohibited_country (country_name adv) then LEAK (country_name adv) # leak_errors rest
      else leak_errors rest)"

definition parse_failure_errors :: "nat \<Rightarrow> nat \<Rightarrow> error + assertion_error list" where
  "parse_failure_errors raw_count parse_failures =
     (if raw_count > 0 then
        (case true_div parse_failures raw_count of
           Inl e \<Rightarrow> Inl e
         | Inr failure_rate \<Rightarrow>
             Inr (if failure_rate \<ge> binary64 (5 / 100)
                  then [PARSE_FAILURES parse_failures raw_count] else []))
      else Inr [])"

definition sanity_errors :: "advisory list \<Rightarrow> assertion_error list" where
  "sanity_errors high_risk = (if length high_risk = 0 then [SANITY] else [])"

fun duplicate_errors :: "string list \<Rightarrow> string set \<Rightarrow> assertion_error list" where
  "duplicate_errors [] seen_codes = []"
| "duplicate_errors (code # codes) seen_codes =
     (if code \<in> seen_codes then DUPLICATE code # duplicate_errors codes (insert code seen_codes)
      else duplicate_errors codes (insert code seen_codes))"

definition run_assertions ::
    "nat \<Rightarrow> nat \<Rightarrow> advisory list \<Rightarrow> advisory list
      \<Rightarrow> error + bool \<times> assertion_error list" where
  "run_assertions raw_count parse_failures prohibited high_risk =
     (case parse_failure_errors raw_count parse_failures of
        Inl e \<Rightarrow> Inl e
      | Inr failures \<Rightarrow>
          let codes = filter (\<lambda>c. c \<noteq> []) (map country_code (prohibited @ high_risk));
              assertion_errors =
                leak_errors high_risk @ failures @ sanity_errors high_risk
                  @ duplicate_errors codes {}
          in Inr (length assertion_errors = 0, assertion_errors))"

section \<open>The classifier and the no-leak assertion\<close>

definition is_high_risk :: "advisory \<Rightarrow> bool" where
  "is_high_risk a = (\<not> is_prohibited_country (country_name a) \<and>
     (overall_level a \<ge> 3 \<or> (has_regional_elevation a \<and> max_regional_level a \<ge> 3)))"

lemma classify_filter:
  "classify advs (p, h) =
     (p @ filter (\<lambda>a. is_prohibited_country (country_name a)) advs,
      h @ filter is_high_risk advs)"
  by (induction advs arbitrary: p h) (auto simp: is_high_risk_def)

lemma fst_filter_high_risk:
  "fst (filter_high_risk advs) =
     sort_key country_name (filter (\<lambda>a. is_prohibited_country (country_name a)) advs)"
  by (simp add: filter_high_risk_def classify_filter)

lemma snd_filter_high_risk:
  "snd (filter_high_risk advs) = sort_key high_risk_key (filter is_high_risk advs)"
  by (simp add: filter_high_risk_def classify_filter)

lemma leak_errors_filter:
  "leak_errors hs = map (\<lambda>a. LEAK (country_name a)) (filter (\<lambda>a. is_prohibited_country (country_name a)) hs)"
  by (induction hs) auto

lemma duplicate_errors_no_leak: "LEAK n \<notin> set (duplicate_errors cs seen)"
  by (induction cs arbitrary: seen) auto

lemma parse_failure_errors_no_leak:
  "parse_failure_errors rc pf = Inr es \<Longrightarrow> LEAK n \<notin> set es"
  by (auto simp: parse_failure_errors_def split: if_splits sum.splits)

text \<open>
  C1.  No advisory of the high-risk output satisfies the prohibited-country predicate, so
  the no-leak assertion finds nothing in the output of the classifier (its loop reports
  nothing, and no \<^verbatim>\<open>LEAK\<close> message is among the errors of \<^verbatim>\<open>run_assertions\<close>);
  an advisory with a prohibited name, whatever its level, is in the prohibited output and
  not in the high-risk output.
\<close>

theorem C1_no_leak:
  "list_all (\<lambda>a. \<not> is_prohibited_country (country_name a)) (snd (filter_high_risk advs))
   \<and> leak_errors (snd (filter_high_risk advs)) = []
   \<and> (run_assertions rc pf (fst (filter_high_risk advs)) (snd (filter_high_risk advs)) = Inr (ok, errs)
        \<longrightarrow> (\<forall>n. LEAK n \<notin> set errs))
   \<and> (a \<in> set advs \<and> is_prohibited_country (country_name a)
        \<longrightarrow> a \<in> set (fst (filter_high_risk advs)) \<and> a \<notin> set (snd (filter_high_risk advs)))"
proof -
  let ?h = "snd (filter_high_risk advs)"
  have clean: "list_all (\<lambda>a. \<not> is_prohibited_country (country_name a)) ?h"
    by (simp add: snd_filter_high_risk list_all_iff is_high_risk_def)
  then have leak: "leak_errors ?h = []"
    by (simp add: leak_errors_filter list_all_iff filter_empty_conv)
  have "\<forall>n. LEAK n \<notin> set errs"
    if "run_assertions rc pf (fst (filter_high_risk advs)) ?h = Inr (ok, errs)"
    using that leak
    by (auto simp: run_assertions_def Let_def sanity_errors_def duplicate_errors_no_leak
        split: sum.splits if_splits dest: parse_failure_errors_no_leak)
  moreover have "a \<in> set (fst (filter_high_risk advs)) \<and> a \<notin> set ?h"
    if "a \<in> set advs \<and> is_prohibited_country (country_name a)"
    using that by (simp add: fst_filter_high_risk snd_filter_high_risk is_high_risk_def)
  ultimately show ?thesis using clean leak by blast
qed

theorem C1_no_leak_witness:
  "example_advisory ''Iran'' ''IR'' 4 (Naive 0) [] \<in> set (fst (filter_high_risk
      [example_advisory ''Haiti'' ''HT'' 4 (Naive 0) [], example_advisory ''Iran'' ''IR'' 4 (Naive 0) []]))
   \<and> example_advisory ''Iran'' ''IR'' 4 (Naive 0) [] \<notin> set (snd (filter_high_risk
      [example_advisory ''Haiti'' ''HT'' 4 (Naive 0) [], example_advisory ''Iran'' ''IR'' 4 (Naive 0) []]))
   \<and> leak_errors (snd (filter_high_risk
      [example_advisory ''Haiti'' ''HT'' 4 (Naive 0) [], example_advisory ''Iran'' ''IR'' 4 (Naive 0) []])) = []"
proof -
  have p: "is_prohibited_country ''Iran''" by code_simp
  show ?thesis
    using C1_no_leak [of "[example_advisory ''Haiti'' ''HT'' 4 (Naive 0) [], example_advisory ''Iran'' ''IR'' 4 (Naive 0) []]"
        0 0 True "[]" "example_advisory ''Iran'' ''IR'' 4 (Naive 0) []"] p
    by (simp add: example_advisory_def)
qed




section \<open>The deduplicator\<close>

definition keyed :: "(nat list \<times> advisory) list \<Rightarrow> bool" where
  "keyed seen = (distinct (map fst seen) \<and> list_all (\<lambda>(k, v). identity_key v = k) seen)"

lemma list_all_update:
  "list_all (\<lambda>(k, v). f v = k) seen \<Longrightarrow> f a = key \<Longrightarrow>
   list_all (\<lambda>(k, v). f v = k) (AList.update key a seen)"
  by (induction seen) auto

lemma keyed_update:
  "keyed seen \<Longrightarrow> keyed (AList.update (identity_key adv) adv seen)"
  unfolding keyed_def by (simp add: distinct_update list_all_update)

lemma dedup_keyed:
  "dedup xs (seen, dups) = Inr (seen', dups') \<Longrightarrow> keyed seen \<Longrightarrow> keyed seen'"
proof (induction xs arbitrary: seen dups)
  case Nil
  then show ?case by simp
next
  case (Cons x xs)
  then show ?case
    by (auto simp: Let_def keyed_update split: option.splits sum.splits bool.splits)
qed

lemma keyed_identity_keys: "keyed seen \<Longrightarrow> map identity_key (map snd seen) = map fst seen"
  by (induction seen) (auto simp: keyed_def)

lemma deduplicate_distinct_keys:
  assumes "deduplicate_advisories advs = Inr (ds, dd)"
  shows "distinct (map identity_key ds)"
proof -
  from assms obtain seen where d: "dedup advs ([], []) = Inr (seen, dd)" and ds: "ds = map snd seen"
    by (auto simp: deduplicate_advisories_def split: sum.splits)
  have k: "keyed seen" using dedup_keyed [OF d] by (simp add: keyed_def)
  then have "distinct (map fst seen)" by (simp add: keyed_def)
  then show ?thesis unfolding ds by (simp only: keyed_identity_keys [OF k])
qed

lemma distinct_codes:
  assumes "distinct (map identity_key ds)"
  shows "distinct (filter (\<lambda>c. c \<noteq> []) (map country_code ds))"
  using assms
proof (induction ds)
  case Nil
  then show ?case by simp
next
  case (Cons a ds)
  have "country_code a \<notin> set (map country_code ds)" if "country_code a \<noteq> []"
  proof
    assume "country_code a \<in> set (map country_code ds)"
    then obtain b where b: "b \<in> set ds" "country_code b = country_code a" by auto
    with that have "identity_key b = identity_key a" by (simp add: identity_key_def)
    moreover from Cons.prems have "identity_key a \<notin> identity_key ` set ds" by simp
    moreover from b have "identity_key b \<in> identity_key ` set ds" by blast
    ultimately show False by simp
  qed
  with Cons show ?case by auto
qed

lemma duplicate_errors_distinct:
  "distinct cs \<Longrightarrow> set cs \<inter> seen = {} \<Longrightarrow> duplicate_errors cs seen = []"
  by (induction cs arbitrary: seen) auto

lemma classified_mset:
  "mset (fst (filter_high_risk ds) @ snd (filter_high_risk ds)) \<subseteq># mset ds"
proof -
  have "mset (fst (filter_high_risk ds) @ snd (filter_high_risk ds))
        = filter_mset (\<lambda>a. is_prohibited_country (country_name a)) (mset ds)
          + filter_mset is_high_risk (mset ds)"
    by (simp add: fst_filter_high_risk snd_filter_high_risk)
  also have "\<dots> = filter_mset (\<lambda>a. is_prohibited_country (country_name a) \<or> is_high_risk a) (mset ds)"
    by (rule multiset_eqI) (auto simp: is_high_risk_def)
  finally show ?thesis by simp
qed

lemma distinct_mset_sub:
  "mset xs \<subseteq># mset ys \<Longrightarrow> distinct (filter P (map f ys)) \<Longrightarrow> distinct (filter P (map f xs))"
proof -
  assume sub: "mset xs \<subseteq># mset ys" and d: "distinct (filter P (map f ys))"
  have "mset (filter P (map f xs)) \<subseteq># mset (filter P (map f ys))"
    using sub by (simp add: image_mset_subseteq_mono multiset_filter_mono)
  then have le: "count (mset (filter P (map f xs))) a \<le> count (mset (filter P (map f ys))) a" for a
    by (rule mset_subset_eq_count)
  have "count (mset (filter P (map f ys))) a \<le> 1" for a
    using d by (simp add: distinct_count_atmost_1)
  with le have c: "count (mset (filter P (map f xs))) a \<le> 1" for a
    by (rule order_trans)
  show ?thesis
    unfolding distinct_count_atmost_1
  proof (intro allI)
    fix a
    show "count (mset (filter P (map f xs))) a = (if a \<in> set (filter P (map f xs)) then 1 else 0)"
      using c [of a] by (cases "a \<in> set (filter P (map f xs))") (auto simp: count_eq_zero_iff simp flip: set_mset_mset dest: le_antisym)
  qed
qed

lemma duplicate_errors_no_other:
  "set (duplicate_errors cs seen) \<subseteq> range DUPLICATE"
  by (induction cs arbitrary: seen) auto

text \<open>
  C10.  After the deduplicator no non-empty country code occurs twice across the
  prohibited and high-risk outputs of the classifier: the codes are distinct, the loop of
  the duplicate-code assertion reports nothing, and no \<^verbatim>\<open>DUPLICATE\<close> message is among the
  errors of \<^verbatim>\<open>run_assertions\<close>.
\<close>

theorem C10_no_duplicate_codes:
  assumes "deduplicate_advisories advs = Inr (ds, dd)"
  shows "distinct (filter (\<lambda>c. c \<noteq> [])
           (map country_code (fst (filter_high_risk ds) @ snd (filter_high_risk ds))))
    \<and> duplicate_errors (filter (\<lambda>c. c \<noteq> [])
           (map country_code (fst (filter_high_risk ds) @ snd (filter_high_risk ds)))) {} = []
    \<and> (run_assertions rc pf (fst (filter_high_risk ds)) (snd (filter_high_risk ds)) = Inr (ok, errs)
         \<longrightarrow> (\<forall>c. DUPLICATE c \<notin> set errs))"
proof -
  let ?cs = "filter (\<lambda>c. c \<noteq> [])
           (map country_code (fst (filter_high_risk ds) @ snd (filter_high_risk ds)))"
  have "distinct (filter (\<lambda>c. c \<noteq> []) (map country_code ds))"
    using deduplicate_distinct_keys [OF assms] by (rule distinct_codes)
  then have d: "distinct ?cs"
    using classified_mset [of ds] by (rule distinct_mset_sub [rotated])
  then have e: "duplicate_errors ?cs {} = []"
    by (simp add: duplicate_errors_distinct)
  have "\<forall>c. DUPLICATE c \<notin> set errs"
    if "run_assertions rc pf (fst (filter_high_risk ds)) (snd (filter_high_risk ds)) = Inr (ok, errs)"
  proof -
    from that obtain fs where fs: "parse_failure_errors rc pf = Inr fs"
      and errs: "errs = leak_errors (snd (filter_high_risk ds)) @ fs
          @ sanity_errors (snd (filter_high_risk ds)) @ duplicate_errors ?cs {}"
      by (auto simp: run_assertions_def Let_def split: sum.splits)
    have "DUPLICATE c \<notin> set fs" for c
      using fs by (auto simp: parse_failure_errors_def split: if_splits sum.splits)
    moreover have "errs = leak_errors (snd (filter_high_risk ds)) @ fs
          @ sanity_errors (snd (filter_high_risk ds)) @ []"
      using errs by (simp only: e)
    ultimately show ?thesis
      by (auto simp: leak_errors_filter sanity_errors_def)
  qed
  with d e show ?thesis by blast
qed

theorem C10_no_duplicate_codes_witness:
  "duplicate_errors (filter (\<lambda>c. c \<noteq> [])
      (map country_code
        (fst (filter_high_risk
           [example_advisory ''Mexico'' ''mx'' 3 (Naive 5) [], example_advisory ''Iran'' ''IR'' 4 (Naive 1) []])
         @ snd (filter_high_risk
           [example_advisory ''Mexico'' ''mx'' 3 (Naive 5) [], example_advisory ''Iran'' ''IR'' 4 (Naive 1) []])))) {} = []"
proof -
  have "deduplicate_advisories
      [example_advisory ''Mexico'' ''MX'' 2 (Naive 0) [], example_advisory ''Iran'' ''IR'' 4 (Naive 1) [],
       example_advisory ''Mexico'' ''mx'' 3 (Naive 5) []]
    = Inr ([example_advisory ''Mexico'' ''mx'' 3 (Naive 5) [], example_advisory ''Iran'' ''IR'' 4 (Naive 1) []],
           [Dropped (example_advisory ''Mexico'' ''MX'' 2 (Naive 0) []) (example_advisory ''Mexico'' ''mx'' 3 (Naive 5) [])])"
    by code_simp
  from C10_no_duplicate_codes [OF this, of 3 0 True "[]"] show ?thesis by simp
qed





section \<open>The record parser\<close>

lemma category_raises:
  "(\<exists>e. (if truthy c then getitem0 c else Inr (JStr [])) = Inl e) = no_element_0 c"
  by (cases c) (auto split: list.splits)

lemma parse_advisory_None:
  "(parse_advisory L now raw = None) =
     (case get (Title raw) (JStr []) of
        JStr title \<Rightarrow>
          (snd (parse_level_from_title title) = 0
             \<and> \<not> is_prohibited_country (fst (parse_level_from_title title)))
          \<or> no_element_0 (get (Category raw) (JArr []))
          \<or> \<not> is_text (get (Summary raw) (JStr []))
      | _ \<Rightarrow> True)"
proof (cases "get (Title raw) (JStr [])")
  case (JStr title)
  obtain name overall where p: "parse_level_from_title title = (name, overall)"
    by (cases "parse_level_from_title title")
  show ?thesis
  proof (cases "overall = 0 \<and> \<not> is_prohibited_country name")
    case True
    with JStr p show ?thesis by (simp add: parse_advisory_def parse_advisory_try_def)
  next
    case False
    show ?thesis
    proof (cases "if truthy (get (Category raw) (JArr []))
        then getitem0 (get (Category raw) (JArr [])) else Inr (JStr [])")
      case (Inl e)
      then have "no_element_0 (get (Category raw) (JArr []))"
        using category_raises [of "get (Category raw) (JArr [])"] by auto
      with JStr p False Inl show ?thesis
        by (simp add: parse_advisory_def parse_advisory_try_def Let_def)
    next
      case (Inr code)
      then have "\<not> no_element_0 (get (Category raw) (JArr []))"
        using category_raises [of "get (Category raw) (JArr [])"] by auto
      with JStr p False Inr show ?thesis
        by (cases "get (Summary raw) (JStr [])")
           (simp_all add: parse_advisory_def parse_advisory_try_def Let_def is_text_def)
    qed
  qed
qed (simp_all add: parse_advisory_def parse_advisory_try_def)

lemma parse_advisory_Some:
  assumes "parse_advisory L now raw = Some a"
  shows "\<exists>title. get (Title raw) (JStr []) = JStr title
           \<and> (country_name a, overall_level a) = parse_level_from_title title"
  using assms
  by (auto simp: parse_advisory_def parse_advisory_try_def Let_def
      split: sum.splits json.splits prod.splits if_splits)

text \<open>
  C9, as amended.  A raw record is discarded exactly when its title is not a text, or the
  title parses to level 0 and the parsed name is not a prohibited country, or the
  assembly of the advisory raises (the category is true in a test and has no element 0,
  or the summary is not a text); a record that is retained carries the name and the level
  of its title, so a level-0 advisory is retained only under a prohibited name.  The
  heading \<^verbatim>\<open>Mainland China, Hong Kong & Macau - See Summaries\<close> is retained with
  level 0.
\<close>

theorem C9_level_0_retention:
  "((parse_advisory L now raw = None) =
      (case get (Title raw) (JStr []) of
         JStr title \<Rightarrow>
           (snd (parse_level_from_title title) = 0
              \<and> \<not> is_prohibited_country (fst (parse_level_from_title title)))
           \<or> no_element_0 (get (Category raw) (JArr []))
           \<or> \<not> is_text (get (Summary raw) (JStr []))
       | _ \<Rightarrow> True))
   \<and> (\<forall>a. parse_advisory L now raw = Some a \<longrightarrow>
         (\<exists>title. get (Title raw) (JStr []) = JStr title
            \<and> (country_name a, overall_level a) = parse_level_from_title title
            \<and> (overall_level a = 0 \<longrightarrow> is_prohibited_country (country_name a))))
   \<and> map_option (\<lambda>a. (country_name a, overall_level a))
        (parse_advisory L now
          (example_raw ''Mainland China, Hong Kong & Macau - See Summaries'' [] [] []))
      = Some (''Mainland China, Hong Kong & Macau - See Summaries'', 0)"
proof -
  have "\<exists>title. get (Title raw) (JStr []) = JStr title
            \<and> (country_name a, overall_level a) = parse_level_from_title title
            \<and> (overall_level a = 0 \<longrightarrow> is_prohibited_country (country_name a))"
    if a: "parse_advisory L now raw = Some a" for a
  proof -
    from parse_advisory_Some [OF a] obtain title
      where t: "get (Title raw) (JStr []) = JStr title"
        and p: "(country_name a, overall_level a) = parse_level_from_title title"
      by blast
    from a have "parse_advisory L now raw \<noteq> None" by simp
    then have "\<not> (snd (parse_level_from_title title) = 0
        \<and> \<not> is_prohibited_country (fst (parse_level_from_title title)))"
      unfolding parse_advisory_None t by simp
    with p [symmetric] have "overall_level a = 0 \<longrightarrow> is_prohibited_country (country_name a)"
      by simp
    with t p show ?thesis by blast
  qed
  moreover have "parse_level_from_title ''Mainland China, Hong Kong & Macau - See Summaries''
      = (''Mainland China, Hong Kong & Macau - See Summaries'', 0)"
    by code_simp
  moreover have "is_prohibited_country ''Mainland China, Hong Kong & Macau - See Summaries''"
    by code_simp
  ultimately show ?thesis
    using parse_advisory_None [of L now raw]
    by (simp add: parse_advisory_def parse_advisory_try_def Let_def example_raw_def get_def)
qed

theorem C9_level_0_retention_witness:
  "map_option (\<lambda>a. (country_name a, overall_level a))
     (parse_advisory example_lib (Naive 0) (example_raw ''Cuba'' [''CU''] [] [])) = Some (''Cuba'', 0)
   \<and> parse_advisory example_lib (Naive 0) (example_raw ''Atlantis - See Summaries'' [] [] []) = None"
proof -
  have p: "parse_level_from_title ''Cuba'' = (''Cuba'', 0)"
    by code_simp
  have c: "is_prohibited_country ''Cuba''"
    by code_simp
  have q: "parse_level_from_title ''Atlantis - See Summaries'' = (''Atlantis - See Summaries'', 0)"
    by code_simp
  have n: "\<not> is_prohibited_country ''Atlantis - See Summaries''"
    by code_simp
  from C9_level_0_retention [of example_lib "Naive 0" "example_raw ''Cuba'' [''CU''] [] []"] p c
  have "map_option (\<lambda>a. (country_name a, overall_level a))
     (parse_advisory example_lib (Naive 0) (example_raw ''Cuba'' [''CU''] [] [])) = Some (''Cuba'', 0)"
    by (cases "parse_advisory example_lib (Naive 0) (example_raw ''Cuba'' [''CU''] [] [])")
       (auto simp: example_raw_def get_def is_text_def)
  moreover
  from C9_level_0_retention [of example_lib "Naive 0" "example_raw ''Atlantis - See Summaries'' [] [] []"] q n
  have "parse_advisory example_lib (Naive 0) (example_raw ''Atlantis - See Summaries'' [] [] []) = None"
    by (simp add: example_raw_def get_def)
  ultimately show ?thesis by blast
qed

text \<open>
  C9 as stated fails: the title \<^verbatim>\<open>Cuba\<close> parses to level 0 and the name is a prohibited
  country, but with the summary \<^verbatim>\<open>null\<close> the call of \<^verbatim>\<open>clean_html\<close> raises
  \<^verbatim>\<open>TypeError\<close>, the outer handler returns \<^verbatim>\<open>None\<close>, and the record is discarded.
\<close>

theorem C9_null_summary_counterexample:
  "parse_advisory example_lib (Naive 0)
      \<lparr>Title = Some (JStr ''Cuba''), Category = None, Summary = Some JNull, Link = None,
       Id = None, Updated = None, Published = None\<rparr> = None
   \<and> parse_level_from_title ''Cuba'' = (''Cuba'', 0)
   \<and> is_prohibited_country ''Cuba''"
proof -
  have p: "parse_level_from_title ''Cuba'' = (''Cuba'', 0)"
    by code_simp
  have c: "is_prohibited_country ''Cuba''"
    by code_simp
  show ?thesis
    using p c by (simp add: parse_advisory_def parse_advisory_try_def get_def)
qed

section \<open>The regional warning extractor\<close>

lemma many_suffix: "(g', s') \<in> set (many P g s) \<Longrightarrow> suffix s' s \<and> g' = g"
  by (induction s) (auto simp: suffix_Cons split: if_splits)

lemma few_suffix: "(g', s') \<in> set (few P g s) \<Longrightarrow> suffix s' s \<and> g' = g"
  by (induction s) (auto simp: suffix_Cons split: if_splits)

lemma run_suffix: "(g', s') \<in> set (run r (g, s)) \<Longrightarrow> suffix s' s"
proof (induction r arbitrary: g s g' s')
  case (Sym P)
  then show ?case by (auto simp: suffix_Cons split: list.splits if_splits)
next
  case (Cat a b)
  then obtain g1 s1 where "(g1, s1) \<in> set (run a (g, s))" "(g', s') \<in> set (run b (g1, s1))"
    by auto
  with Cat.IH show ?case by (blast intro: suffix_order.trans)
next
  case (Many P)
  then show ?case by (auto dest: many_suffix)
next
  case (Few P)
  then show ?case by (auto dest: few_suffix)
qed auto

lemma re_sub_bol_suffix: "suffix (re_sub_bol r [] s) s"
proof (cases "run r ([], s)")
  case Nil
  then show ?thesis by (simp add: re_sub_bol_def)
next
  case (Cons m ms)
  obtain g rest where m: "m = (g, rest)" by (cases m)
  with Cons have "(g, rest) \<in> set (run r ([], s))" by simp
  then have "suffix rest s" by (rule run_suffix)
  with Cons m show ?thesis by (simp add: re_sub_bol_def)
qed

lemma sublist_trans: "sublist xs ys \<Longrightarrow> sublist ys zs \<Longrightarrow> sublist xs zs"
proof -
  assume "sublist xs ys" "sublist ys zs"
  then obtain p q p' q' where "ys = p @ xs @ q" "zs = p' @ ys @ q'"
    by (auto simp: sublist_def)
  then have "zs = (p' @ p) @ xs @ (q @ q')" by simp
  then show ?thesis unfolding sublist_def by blast
qed

lemma sublist_strip: "sublist (strip s) s"
proof -
  have "sublist (rev (dropWhile isspace (rev (dropWhile isspace s)))) (rev (rev (dropWhile isspace s)))"
    unfolding sublist_rev by (rule sublist_dropWhile)
  then have "sublist (strip s) (dropWhile isspace s)" by (simp add: strip_def)
  then show ?thesis using sublist_dropWhile sublist_trans by blast
qed

lemma contains_lower_mono: "sublist t s \<Longrightarrow> contains p (lower t) \<Longrightarrow> contains p (lower s)"
  unfolding contains_def lower_def
  using map_mono_sublist sublist_trans by blast

definition well_formed :: "regional_warning \<Rightarrow> bool" where
  "well_formed w =
     ((level w = 3 \<or> level w = 4)
      \<and> 3 \<le> length (region_name w) \<and> length (region_name w) \<le> 200
      \<and> \<not> list_ex (\<lambda>skip. contains skip (lower (region_name w))) skip_phrases
      \<and> \<not> list_ex (\<lambda>vague. contains vague (lower (region_name w))) vague_terms)"

lemma cleaned_sublist:
  "sublist (strip (re_sub_bol punct_rx [] (re_sub_bol article_rx [] region))) region"
proof -
  have "sublist (re_sub_bol article_rx [] region) region"
    using re_sub_bol_suffix by blast
  moreover have "sublist (re_sub_bol punct_rx [] (re_sub_bol article_rx [] region))
      (re_sub_bol article_rx [] region)"
    using re_sub_bol_suffix by blast
  ultimately show ?thesis
    using sublist_strip sublist_trans by blast
qed

lemma add_warnings_well_formed:
  "list_all well_formed warnings \<Longrightarrow> lvl = 3 \<or> lvl = 4 \<Longrightarrow>
   list_all well_formed (add_warnings lvl ms warnings)"
proof (induction ms arbitrary: warnings)
  case Nil
  then show ?case by simp
next
  case (Cons m ms)
  let ?region = "strip (group m 1)"
  let ?cleaned = "strip (re_sub_bol punct_rx [] (re_sub_bol article_rx [] ?region))"
  have skip: "\<not> list_ex (\<lambda>skip. contains skip (lower ?cleaned)) skip_phrases"
    if "\<not> list_ex (\<lambda>skip. contains skip (lower ?region)) skip_phrases"
    using that contains_lower_mono [OF cleaned_sublist] by (auto simp: list_ex_iff)
  have old: "list_all well_formed (add_warnings lvl ms warnings)"
    using Cons.prems by (rule Cons.IH)
  have new: "list_all well_formed
      (add_warnings lvl ms (warnings @ [\<lparr>region_name = ?cleaned, level = lvl, reasons = r\<rparr>]))"
    if "\<not> list_ex (\<lambda>skip. contains skip (lower ?region)) skip_phrases"
      and "\<not> list_ex (\<lambda>vague. contains vague (lower ?cleaned)) vague_terms"
      and "\<not> (length ?cleaned < 3 \<or> length ?cleaned > 200)" for r
  proof (rule Cons.IH)
    have "well_formed \<lparr>region_name = ?cleaned, level = lvl, reasons = r\<rparr>"
      using that skip Cons.prems(2) by (simp add: well_formed_def)
    with Cons.prems(1)
    show "list_all well_formed (warnings @ [\<lparr>region_name = ?cleaned, level = lvl, reasons = r\<rparr>])"
      by simp
  qed (rule Cons.prems(2))
  show ?case
    using old new by (simp add: Let_def)
qed

text \<open>
  C7.  Every warning the extractor emits has level 3 or 4 and a region name of 3 to 200
  characters which, in lower case, contains none of the country-wide qualifiers and none
  of the vague references; so no region name containing \<^verbatim>\<open>entire country\<close> is emitted,
  at any level.
\<close>

theorem C7_warnings_well_formed:
  "list_all (\<lambda>w. (level w = 3 \<or> level w = 4)
      \<and> 3 \<le> length (region_name w) \<and> length (region_name w) \<le> 200
      \<and> \<not> list_ex (\<lambda>skip. contains skip (lower (region_name w))) skip_phrases
      \<and> \<not> list_ex (\<lambda>vague. contains vague (lower (region_name w))) vague_terms
      \<and> \<not> contains ''entire country'' (lower (region_name w)))
    (extract_regional_warnings L summary' overall)
   \<and> extract_regional_warnings L ''Do not travel to the entire country due to war.'' 2 = []"
proof -
  have wf: "list_all well_formed (extract_regional_warnings L summary' overall)"
    by (simp add: extract_regional_warnings_def Let_def add_warnings_well_formed)
  have "\<not> contains ''entire country'' (lower (region_name w))" if "well_formed w" for w
  proof
    assume "contains ''entire country'' (lower (region_name w))"
    moreover have "sublist ''entire'' ''entire country''" by (rule prefix_imp_sublist) simp
    ultimately have "contains ''entire'' (lower (region_name w))"
      unfolding contains_def using sublist_trans by blast
    with that show False by (simp add: well_formed_def skip_phrases_def)
  qed
  with wf have "list_all (\<lambda>w. well_formed w \<and> \<not> contains ''entire country'' (lower (region_name w)))
      (extract_regional_warnings L summary' overall)"
    by (simp add: list_all_iff)
  moreover have "extract_regional_warnings L ''Do not travel to the entire country due to war.'' 2 = []"
    by code_simp
  ultimately show ?thesis by (simp add: well_formed_def list_all_iff)
qed

theorem C7_warnings_well_formed_witness:
  "list_all (\<lambda>w. level w = 4 \<and> region_name w = ''Sinai Peninsula'')
     (extract_regional_warnings example_lib ''Do not travel to the Sinai Peninsula due to terrorism.'' 2)
   \<and> extract_regional_warnings example_lib ''Do not travel to the Sinai Peninsula due to terrorism.'' 2 \<noteq> []"
proof -
  have "extract_regional_warnings example_lib ''Do not travel to the Sinai Peninsula due to terrorism.'' 2
    = [\<lparr>region_name = ''Sinai Peninsula'', level = 4, reasons = ''terrorism''\<rparr>]"
    by code_simp
  with C7_warnings_well_formed [of example_lib "''Do not travel to the Sinai Peninsula due to terrorism.''" 2]
  show ?thesis by simp
qed





section \<open>The title parser\<close>

definition token_rx :: rx where
  "token_rx = cats [Many isspace, chr CHR ''-'', Many isspace, lit_ci ''Level'', Many isspace,
                    Grp 2 (Sym isdigit)]"

lemma title_rx_token: "title_rx = Cat (Grp 1 (plus_lazy dot)) token_rx"
  by (simp add: title_rx_def token_rx_def cats_def)

lemma run_Cat_Sym:
  "run (Cat (Sym P) r) (g, s) = (case s of [] \<Rightarrow> [] | c # cs \<Rightarrow> if P c then run r (g, cs) else [])"
  by (cases s) auto

lemma concat_map_concat_map:
  "concat (map f (concat (map h xs))) = concat (map (\<lambda>x. concat (map f (h x))) xs)"
  by (induction xs) simp_all

lemma run_Cat_Cat: "run (Cat (Cat a b) c) st = run (Cat a (Cat b c)) st"
proof -
  have "run (Cat b c) = (\<lambda>x. concat (map (run c) (run b x)))"
    by (rule ext) simp
  then show ?thesis
    by (simp add: concat_map_concat_map)
qed

lemma run_Cat_Eps: "run (Cat Eps r) st = run r st"
  by simp

lemma run_Cat_Many:
  assumes "\<And>c cs g. P c \<Longrightarrow> run r (g, c # cs) = []"
  shows "run (Cat (Many P) r) (g, s) = run r (g, dropWhile P s)"
  by (induction s) (simp_all add: assms)

lemma lit_ci_Cons: "lit_ci (c # w) = Cat (chr_ci c) (lit_ci w)"
  by (simp add: lit_ci_def cats_def)

lemma lit_ci_Nil: "lit_ci [] = Eps"
  by (simp add: lit_ci_def cats_def)

lemma run_lit_ci:
  "run (Cat (lit_ci w) r) (g, s) =
     (if length w \<le> length s \<and> lower (take (length w) s) = lower w
      then run r (g, drop (length w) s) else [])"
proof (induction w arbitrary: s)
  case Nil
  then show ?case by (simp add: lit_ci_Nil lower_def)
next
  case (Cons c w)
  show ?case
  proof (cases s)
    case Nil
    then show ?thesis
      by (simp add: lit_ci_Cons run_Cat_Cat run_Cat_Sym chr_ci_def del: run.simps)
  next
    case (Cons x xs)
    then show ?thesis
      using Cons.IH [of xs]
      by (simp add: lit_ci_Cons run_Cat_Cat run_Cat_Sym chr_ci_def lower_def del: run.simps)
  qed
qed

lemma isspace_cases:
  assumes "isspace c"
    and "list_all P [CHR 0x09, CHR 0x0A, CHR 0x0B, CHR 0x0C, CHR 0x0D,
                     CHR 0x1C, CHR 0x1D, CHR 0x1E, CHR 0x1F, CHR 0x20, CHR 0x85, CHR 0xA0]"
  shows "P c"
  using assms unfolding isspace_def list_all_iff by blast

lemma isspace_lower_char: "isspace c \<Longrightarrow> lower_char c = c"
  by (erule isspace_cases) code_simp

lemma isspace_not_digit: "isspace c \<Longrightarrow> \<not> isdigit c"
  by (erule isspace_cases) code_simp

lemma isspace_not_hyphen: "isspace c \<Longrightarrow> c \<noteq> CHR ''-''"
  by (erule isspace_cases) code_simp

lemma isspace_not_l: "isspace c \<Longrightarrow> lower_char c \<noteq> CHR ''l''"
  by (erule isspace_cases) code_simp

lemma lower_level: "lower ''Level'' = ''level''"
  by code_simp

lemma run_digit:
  "run (Cat (Grp 2 (Sym isdigit)) Eps) (g, s) =
     (case s of [] \<Rightarrow> [] | d # rest \<Rightarrow> if isdigit d then [((2, [d]) # g, rest)] else [])"
  by (cases s) auto

lemma run_token:
  "run token_rx (g, t) =
     (case level_token t of None \<Rightarrow> [] | Some (d, rest) \<Rightarrow> [((2, [d]) # g, rest)])"
proof -
  let ?D = "Cat (Grp 2 (Sym isdigit)) Eps"
  let ?L = "Cat (lit_ci ''Level'') (Cat (Many isspace) ?D)"
  let ?H = "Cat (chr CHR ''-'') (Cat (Many isspace) ?L)"
  have m3: "run (Cat (Many isspace) ?D) (g, s) = run ?D (g, dropWhile isspace s)" for g s
    by (rule run_Cat_Many) (simp add: run_digit isspace_not_digit del: run.simps)
  have l: "run ?L (g, s) =
      (if lower (take 5 s) = ''level'' then run ?D (g, dropWhile isspace (drop 5 s)) else [])" for g s
  proof -
    have "run (Cat (lit_ci ''Level'') r) (g, s) =
        (if 5 \<le> length s \<and> lower (take 5 s) = ''level''
         then run r (g, drop 5 s) else [])" for r
      using run_lit_ci [of "''Level''" r g s] by (simp add: lower_level eval_nat_numeral)
    moreover have "5 \<le> length s" if "lower (take 5 s) = ''level''"
    proof -
      from that have "length (lower (take 5 s)) = length ''level''" by simp
      then show ?thesis by (simp add: lower_def)
    qed
    ultimately show ?thesis
      by (auto simp: m3 simp del: run.simps)
  qed
  have m2: "run (Cat (Many isspace) ?L) (g, s) = run ?L (g, dropWhile isspace s)" for g s
  proof (rule run_Cat_Many)
    fix c cs g
    assume "isspace c"
    then have "lower_char c \<noteq> CHR ''l''"
      by (rule isspace_not_l)
    then show "run ?L (g, c # cs) = []"
      by (simp add: l lower_def del: run.simps)
  qed
  have h: "run ?H (g, s) =
      (case s of [] \<Rightarrow> [] | c # cs \<Rightarrow> if c = CHR ''-'' then run ?L (g, dropWhile isspace cs) else [])" for g s
    by (cases s) (simp_all add: chr_def run_Cat_Sym m2 del: run.simps)
  have m1: "run (Cat (Many isspace) ?H) (g, s) = run ?H (g, dropWhile isspace s)" for g s
    by (rule run_Cat_Many) (simp add: h isspace_not_hyphen del: run.simps)
  have t: "token_rx = Cat (Many isspace) ?H"
    by (simp add: token_rx_def cats_def)
  have r1: "run token_rx (g, t) = run ?H (g, dropWhile isspace t)"
    by (simp only: t m1)
  show ?thesis
  proof (cases "dropWhile isspace t")
    case Nil
    then have "level_token t = None" by (simp only: level_token_def list.case)
    moreover from Nil have "run token_rx (g, t) = []" by (simp only: r1 h list.case)
    ultimately show ?thesis by simp
  next
    case (Cons c t2)
    let ?t3 = "dropWhile isspace t2"
    let ?u = "dropWhile isspace (drop 5 ?t3)"
    have r2: "run token_rx (g, t) = (if c = CHR ''-'' then run ?L (g, ?t3) else [])"
      by (simp only: r1 Cons h list.case)
    have k: "level_token t =
        (if c \<noteq> CHR ''-'' then None
         else if lower (take 5 ?t3) \<noteq> ''level'' then None
         else (case ?u of [] \<Rightarrow> None | d # rest \<Rightarrow> if isdigit d then Some (d, rest) else None))"
      by (simp only: level_token_def Cons list.case Let_def)
    show ?thesis
    proof (cases "c = CHR ''-'' \<and> lower (take 5 ?t3) = ''level''")
      case False
      then show ?thesis unfolding r2 k l by (auto simp del: run.simps)
    next
      case True
      then have r3: "run token_rx (g, t) = run ?D (g, ?u)"
        unfolding r2 l by (simp del: run.simps)
      from True have k2: "level_token t =
          (case ?u of [] \<Rightarrow> None | d # rest \<Rightarrow> if isdigit d then Some (d, rest) else None)"
        unfolding k by simp
      have "(case u of [] \<Rightarrow> [] | d # rest \<Rightarrow> if isdigit d then [((2, [d]) # g, rest)] else []) =
          (case (case u of [] \<Rightarrow> None | d # rest \<Rightarrow> if isdigit d then Some (d, rest) else None) of
             None \<Rightarrow> [] | Some (d, rest) \<Rightarrow> [((2, [d]) # g, rest)])" for u :: string
        by (cases u) simp_all
      then show ?thesis
        unfolding r3 k2 run_digit .
    qed
  qed
qed

definition lazy_scan :: "string \<Rightarrow> string \<Rightarrow> mstate list" where
  "lazy_scan pre cs =
     concat (map (run token_rx)
       (map (\<lambda>(g', s'). ((1, take (length (pre @ cs) - length s') (pre @ cs)) # g', s'))
         (few dot [] cs)))"

lemma lazy_scan_Nil: "lazy_scan pre [] = run token_rx ([(1, pre)], [])"
  by (simp add: lazy_scan_def del: run.simps)

lemma lazy_scan_Cons:
  "lazy_scan pre (c # cs) =
     run token_rx ([(1, pre)], c # cs) @ (if dot c then lazy_scan (pre @ [c]) cs else [])"
  by (simp add: lazy_scan_def del: run.simps)

lemma run_title:
  "run title_rx ([], s) =
     (case s of [] \<Rightarrow> [] | c # cs \<Rightarrow> if dot c then lazy_scan [c] cs else [])"
  by (cases s) (simp_all add: title_rx_token plus_lazy_def lazy_scan_def)

lemma level_token_Nil: "level_token [] = None"
  by (simp add: level_token_def)

lemma lazy_scan_found:
  assumes "level_token T = Some (d, rest)"
    and "\<forall>j < length xs. level_token (drop j xs @ T) = None"
    and "list_all dot xs"
  shows "\<exists>ms. lazy_scan pre (xs @ T) = ([(2, [d]), (1, pre @ xs)], rest) # ms"
  using assms(2,3)
proof (induction xs arbitrary: pre)
  case Nil
  from assms(1) obtain c cs where T: "T = c # cs"
    by (cases T) (simp_all add: level_token_Nil)
  show ?case
    using assms(1) by (simp add: T lazy_scan_Cons run_token del: run.simps)
next
  case (Cons x xs)
  from Cons.prems(1) have 0: "level_token ((x # xs) @ T) = None" by fastforce
  from Cons.prems(1) have "\<forall>j < length xs. level_token (drop j xs @ T) = None" by fastforce
  moreover from Cons.prems(2) have "list_all dot xs" "dot x" by simp_all
  ultimately obtain ms where "lazy_scan (pre @ [x]) (xs @ T) = ([(2, [d]), (1, (pre @ [x]) @ xs)], rest) # ms"
    using Cons.IH by blast
  with 0 \<open>dot x\<close> show ?case
    by (simp add: lazy_scan_Cons run_token del: run.simps)
qed

lemma lazy_scan_none:
  assumes "\<forall>j \<le> length cs. list_all dot (take j cs) \<longrightarrow> level_token (drop j cs) = None"
  shows "lazy_scan pre cs = []"
  using assms
proof (induction cs arbitrary: pre)
  case Nil
  then show ?case by (simp add: lazy_scan_Nil run_token level_token_Nil del: run.simps)
next
  case (Cons c cs)
  from Cons.prems have 0: "level_token (c # cs) = None" by fastforce
  have "lazy_scan (pre @ [c]) cs = []" if "dot c"
  proof (rule Cons.IH, intro allI impI)
    fix j assume "j \<le> length cs" "list_all dot (take j cs)"
    with that Cons.prems [rule_format, of "Suc j"] show "level_token (drop j cs) = None"
      by simp
  qed
  with 0 show ?case
    by (simp add: lazy_scan_Cons run_token del: run.simps)
qed

lemma int_of_str_digit: "int_of_str [d] = digit_value d"
  by (simp add: int_of_str_def)

text \<open>
  C8, as amended.  The lazy group takes the shortest prefix that can be followed by the
  level token.  So when a heading is \<open>X @ T\<close>, with \<open>X\<close> not empty and free of line
  feeds, \<open>T\<close> starting with a level token of digit \<open>d\<close>, and no shorter non-empty
  prefix of the heading followed by a level token, the parser returns the trimmed \<open>X\<close>
  and the value of \<open>d\<close>; and when no non-empty prefix free of line feeds is followed
  by a level token, it returns the heading as it is, with level 0.  The word
  \<^verbatim>\<open>Level\<close> matches in any case, and the white space of the token and of the
  trimming includes U+0085 and U+00A0.
\<close>

theorem C8_title_parser:
  "(X \<noteq> [] \<and> list_all dot X \<and> level_token T = Some (d, rest)
      \<and> (\<forall>j. 0 < j \<and> j < length X \<longrightarrow> level_token (drop j X @ T) = None)
      \<longrightarrow> parse_level_from_title (X @ T) = (strip X, digit_value d))
   \<and> ((\<forall>j. 0 < j \<and> j \<le> length title \<and> list_all dot (take j title)
          \<longrightarrow> level_token (drop j title) = None)
      \<longrightarrow> parse_level_from_title title = (title, 0))
   \<and> parse_level_from_title ''Mexico - Level 2: Exercise Increased Caution'' = (''Mexico'', 2)
   \<and> parse_level_from_title ''mexico-LEVEL2'' = (''mexico'', 2)
   \<and> parse_level_from_title (''Fiji'' @ [CHR 0xA0] @ ''-'' @ [CHR 0x85] @ ''level'' @ [CHR 0xA0] @ ''2'')
       = (''Fiji'', 2)
   \<and> parse_level_from_title ([CHR 0xA0] @ ''Fiji - Level 2'') = (''Fiji'', 2)"
proof -
  have found: "parse_level_from_title (X @ T) = (strip X, digit_value d)"
    if X1: "X \<noteq> []" and X2: "list_all dot X" and X3: "level_token T = Some (d, rest)"
      and X4: "\<forall>j. 0 < j \<and> j < length X \<longrightarrow> level_token (drop j X @ T) = None"
  proof -
    from X1 obtain x xs where X: "X = x # xs" by (cases X) auto
    have "level_token (drop j xs @ T) = None" if "j < length xs" for j
      using X4 [rule_format, of "Suc j"] that
      by (simp add: X)
    then have "\<forall>j < length xs. level_token (drop j xs @ T) = None" by blast
    moreover from X2 have "list_all dot xs" "dot x" by (simp_all add: X)
    ultimately obtain ms where "lazy_scan [x] (xs @ T) = ([(2, [d]), (1, [x] @ xs)], rest) # ms"
      using lazy_scan_found [OF X3] by blast
    with \<open>dot x\<close> show ?thesis
      by (simp add: parse_level_from_title_def re_match_def run_title X group_def int_of_str_digit
          del: run.simps)
  qed
  have none: "parse_level_from_title title = (title, 0)"
    if h: "\<forall>j. 0 < j \<and> j \<le> length title \<and> list_all dot (take j title)
          \<longrightarrow> level_token (drop j title) = None"
  proof (cases title)
    case Nil
    then show ?thesis
      by (simp add: parse_level_from_title_def re_match_def run_title del: run.simps)
  next
    case (Cons c cs)
    have "lazy_scan [c] cs = []" if "dot c"
    proof (rule lazy_scan_none, intro allI impI)
      fix j assume "j \<le> length cs" "list_all dot (take j cs)"
      with that h [rule_format, of "Suc j"] show "level_token (drop j cs) = None"
        by (simp add: Cons)
    qed
    then show ?thesis
      by (simp add: parse_level_from_title_def re_match_def run_title Cons del: run.simps)
  qed
  have "parse_level_from_title ''Mexico - Level 2: Exercise Increased Caution'' = (''Mexico'', 2)"
    by code_simp
  moreover have "parse_level_from_title ''mexico-LEVEL2'' = (''mexico'', 2)"
    by code_simp
  moreover have "parse_level_from_title
      (''Fiji'' @ [CHR 0xA0] @ ''-'' @ [CHR 0x85] @ ''level'' @ [CHR 0xA0] @ ''2'') = (''Fiji'', 2)"
    by code_simp
  moreover have "parse_level_from_title ([CHR 0xA0] @ ''Fiji - Level 2'') = (''Fiji'', 2)"
    by code_simp
  ultimately show ?thesis using found none by blast
qed

text \<open>
  C8 as stated fails: a heading of the shape \<^verbatim>\<open>X - Level N: ...\<close> whose \<^verbatim>\<open>X\<close> holds a
  level token of its own is cut at the first token, and one whose \<^verbatim>\<open>X\<close> holds a line
  feed does not match at all.
\<close>

theorem C8_title_parser_counterexample:
  "parse_level_from_title (''A - Level 1'' @ '' - Level 2: B'') = (''A'', 1)
   \<and> parse_level_from_title ([CHR ''N'', CHR 0x0A, CHR ''K''] @ '' - Level 4: Do Not Travel'')
       = ([CHR ''N'', CHR 0x0A, CHR ''K''] @ '' - Level 4: Do Not Travel'', 0)"
  by code_simp

theorem C8_title_parser_witness:
  "parse_level_from_title (''Chad'' @ '' - Level 3: Reconsider Travel'') = (''Chad'', 3)
   \<and> parse_level_from_title ''Oz'' = (''Oz'', 0)"
proof -
  let ?T = "'' - Level 3: Reconsider Travel''"
  have t: "level_token ?T = Some (CHR ''3'', '': Reconsider Travel'')"
    by code_simp
  have k: "level_token (drop 1 ''Chad'' @ ?T) = None" "level_token (drop 2 ''Chad'' @ ?T) = None"
    "level_token (drop 3 ''Chad'' @ ?T) = None"
    by code_simp+
  have early: "\<forall>j. 0 < j \<and> j < length ''Chad'' \<longrightarrow> level_token (drop j ''Chad'' @ ?T) = None"
  proof (intro allI impI)
    fix j :: nat
    assume "0 < j \<and> j < length ''Chad''"
    then have "j = 1 \<or> j = 2 \<or> j = 3" by auto
    then show "level_token (drop j ''Chad'' @ ?T) = None"
      using k by blast
  qed
  have z: "level_token (drop 1 ''Oz'') = None" "level_token (drop 2 ''Oz'') = None"
    by code_simp+
  have no: "\<forall>j. 0 < j \<and> j \<le> length ''Oz'' \<and> list_all dot (take j ''Oz'')
      \<longrightarrow> level_token (drop j ''Oz'') = None"
  proof (intro allI impI)
    fix j :: nat
    assume "0 < j \<and> j \<le> length ''Oz'' \<and> list_all dot (take j ''Oz'')"
    then have "j = 1 \<or> j = 2" by auto
    then show "level_token (drop j ''Oz'') = None"
      using z by blast
  qed
  have d: "list_all dot ''Chad''" "strip ''Chad'' = ''Chad''" "digit_value CHR ''3'' = 3"
    by code_simp+
  from C8_title_parser [of "''Chad''" ?T "CHR ''3''" "'': Reconsider Travel''" "''Oz''"] t early no d
  show ?thesis by simp
qed

end
